theory Spec2Isabelle
  imports Main
begin

section \<open>Coordinates\<close>

text \<open>
  Modelled from the spec: \<^verbatim>\<open>BufferCoord\<close> and \<^verbatim>\<open>DisplayCoord\<close> (the header
  declaring them is not part of the sources at hand). Both are a line and a column, two
  signed integers, with componentwise addition and subtraction and the lexicographic
  comparison. The integers of the model are unbounded: lines and columns of a text stay
  far from the bounds of a machine integer, where C++ leaves signed overflow undefined.
\<close>

record LineAndColumn =
  line :: int
  column :: int

type_synonym BufferCoord = LineAndColumn
type_synonym DisplayCoord = LineAndColumn

definition coord :: "int \<Rightarrow> int \<Rightarrow> LineAndColumn" where
  "coord l c = \<lparr>line = l, column = c\<rparr>"

definition coord_add :: "LineAndColumn \<Rightarrow> LineAndColumn \<Rightarrow> LineAndColumn" where
  "coord_add a b = coord (line a + line b) (column a + column b)"

definition coord_less :: "LineAndColumn \<Rightarrow> LineAndColumn \<Rightarrow> bool" where
  "coord_less a b = (if line a \<noteq> line b then line a < line b else column a < column b)"

definition coord_le :: "LineAndColumn \<Rightarrow> LineAndColumn \<Rightarrow> bool" where
  "coord_le a b = (if line a \<noteq> line b then line a < line b else column a \<le> column b)"

section \<open>Errors and outcomes\<close>

text \<open>
  An operation on a window either returns, or leaves by an exception; the window is
  mutated in place, so the state reached so far is part of both outcomes. A failed
  \<^verbatim>\<open>assert\<close> is the error \<open>assert_failed\<close>; a step that C++ leaves undefined
  (dereferencing an iterator outside the text, stepping before the first display
  atom) is the error \<open>undefined_behaviour\<close>.
\<close>

datatype error = assert_failed | filter_id_not_unique string | undefined_behaviour

datatype 'a outcome = Returns 'a | Raises error 'a

fun state_of :: "'a outcome \<Rightarrow> 'a" where
  "state_of (Returns s) = s"
| "state_of (Raises e s) = s"

fun and_then :: "'a outcome \<Rightarrow> ('a \<Rightarrow> 'a outcome) \<Rightarrow> 'a outcome" where
  "and_then (Returns s) f = f s"
| "and_then (Raises e s) f = Raises e s"

section \<open>The buffer\<close>

text \<open>
  Modelled from the spec: \<^verbatim>\<open>Buffer\<close> and \<^verbatim>\<open>BufferIterator\<close> (their header and
  implementation are not part of the sources at hand). The buffer is its text together
  with its undo state. A \<^verbatim>\<open>BufferIterator\<close> is a position in the text, an offset
  between 0 and the length of the text: the arithmetic on iterators stays inside that
  range, \<^verbatim>\<open>is_begin\<close> and \<^verbatim>\<open>is_end\<close> test its two ends, and dereferencing is
  defined strictly before the end only. An iterator held by the window (in a selection,
  in a display atom or in a local variable) is a value: \<^verbatim>\<open>window.cc\<close> never rewrites
  one after an insertion or an erasure, and neither does the model.

  An undo group bundles the modifications made between \<^verbatim>\<open>begin_undo_group\<close> and
  \<^verbatim>\<open>end_undo_group\<close> into one step of the history; \<^verbatim>\<open>undo\<close> takes the last step
  back, applying the inverses of its modifications in reverse order, and returns
  whether there was one. \<open>open_undo_groups\<close> counts the groups begun and not yet
  ended.
\<close>

type_synonym BufferIterator = int

datatype Modification = Insertion nat string | Erasure nat string

record Buffer =
  content :: string
  current_undo_group :: "Modification list"
  history :: "Modification list list"
  redo_history :: "Modification list list"
  open_undo_groups :: nat

definition newline :: char where
  "newline = CHR 0x0A"

definition buffer_length :: "Buffer \<Rightarrow> int" where
  "buffer_length b = int (length (content b))"

definition clamp_position :: "Buffer \<Rightarrow> int \<Rightarrow> BufferIterator" where
  "clamp_position b p = max 0 (min p (buffer_length b))"

definition buffer_begin :: "Buffer \<Rightarrow> BufferIterator" where
  "buffer_begin b = 0"

definition it_plus :: "Buffer \<Rightarrow> BufferIterator \<Rightarrow> int \<Rightarrow> BufferIterator" where
  "it_plus b it n = clamp_position b (it + n)"

definition it_minus :: "Buffer \<Rightarrow> BufferIterator \<Rightarrow> int \<Rightarrow> BufferIterator" where
  "it_minus b it n = clamp_position b (it - n)"

definition is_begin :: "BufferIterator \<Rightarrow> bool" where
  "is_begin it = (it = 0)"

definition is_end :: "Buffer \<Rightarrow> BufferIterator \<Rightarrow> bool" where
  "is_end b it = (it = buffer_length b)"

definition deref :: "Buffer \<Rightarrow> BufferIterator \<Rightarrow> char option" where
  "deref b it =
     (if 0 \<le> it \<and> it < buffer_length b then Some (content b ! nat it) else None)"

fun apply_modification :: "string \<Rightarrow> Modification \<Rightarrow> string" where
  "apply_modification c (Insertion p s) = take p c @ s @ drop p c"
| "apply_modification c (Erasure p s) = take p c @ drop (p + length s) c"

fun inverse_modification :: "Modification \<Rightarrow> Modification" where
  "inverse_modification (Insertion p s) = Erasure p s"
| "inverse_modification (Erasure p s) = Insertion p s"

definition record_modification :: "Buffer \<Rightarrow> Modification \<Rightarrow> Buffer" where
  "record_modification b m =
     b\<lparr>content := apply_modification (content b) m,
       current_undo_group := current_undo_group b @ [m]\<rparr>"

definition buffer_insert :: "Buffer \<Rightarrow> BufferIterator \<Rightarrow> string \<Rightarrow> Buffer" where
  "buffer_insert b pos s = record_modification b (Insertion (nat (clamp_position b pos)) s)"

definition buffer_erase :: "Buffer \<Rightarrow> BufferIterator \<Rightarrow> BufferIterator \<Rightarrow> Buffer" where
  "buffer_erase b first_it last_it =
     (let p = nat (clamp_position b first_it);
          q = max p (nat (clamp_position b last_it))
      in record_modification b (Erasure p (take (q - p) (drop p (content b)))))"

definition begin_undo_group :: "Buffer \<Rightarrow> Buffer" where
  "begin_undo_group b = b\<lparr>redo_history := [], open_undo_groups := Suc (open_undo_groups b)\<rparr>"

definition end_undo_group :: "Buffer \<Rightarrow> Buffer" where
  "end_undo_group b =
     b\<lparr>history := current_undo_group b # history b,
       current_undo_group := [],
       open_undo_groups := open_undo_groups b - 1\<rparr>"

definition replay :: "string \<Rightarrow> Modification list \<Rightarrow> string" where
  "replay c ms = foldl apply_modification c ms"

definition buffer_undo :: "Buffer \<Rightarrow> bool \<times> Buffer" where
  "buffer_undo b =
     (case history b of
        [] \<Rightarrow> (False, b)
      | g # h \<Rightarrow>
          (True, b\<lparr>content := replay (content b) (map inverse_modification (rev g)),
                   history := h,
                   redo_history := g # redo_history b\<rparr>))"


text \<open>
  \<^verbatim>\<open>measure_string\<close> of \<^verbatim>\<open>window.cc\<close>: the line and column reached after a run
  of characters, starting from \<open>(0, 0)\<close>.
\<close>

fun measure_from :: "DisplayCoord \<Rightarrow> string \<Rightarrow> DisplayCoord" where
  "measure_from result [] = result"
| "measure_from result (c # cs) =
     measure_from
       (if c = newline then result\<lparr>line := line result + 1, column := 0\<rparr>
        else result\<lparr>column := column result + 1\<rparr>) cs"

definition measure_string :: "string \<Rightarrow> DisplayCoord" where
  "measure_string s = measure_from (coord 0 0) s"

text \<open>
  Modelled from the spec: the buffer's two coordinate queries. The line and column of
  an iterator are those of the text before it; \<open>buffer_iterator_at\<close> is the first
  position of the text, in order, whose coordinate is not below the one asked for, and
  the end of the text when there is none.
\<close>

definition buffer_line_and_column_at :: "Buffer \<Rightarrow> BufferIterator \<Rightarrow> BufferCoord" where
  "buffer_line_and_column_at b it = measure_string (take (nat (clamp_position b it)) (content b))"

fun first_position_at :: "BufferCoord \<Rightarrow> BufferCoord \<Rightarrow> nat \<Rightarrow> string \<Rightarrow> nat" where
  "first_position_at target here n [] = n"
| "first_position_at target here n (c # cs) =
     (if coord_le target here then n
      else first_position_at target (measure_from here [c]) (Suc n) cs)"

definition buffer_iterator_at :: "Buffer \<Rightarrow> BufferCoord \<Rightarrow> BufferIterator" where
  "buffer_iterator_at b target = int (first_position_at target (coord 0 0) 0 (content b))"

section \<open>Selections\<close>

text \<open>
  The members of \<^verbatim>\<open>Selection\<close> that \<^verbatim>\<open>window.cc\<close> reads and writes: the anchor
  \<open>m_first\<close>, the cursor \<open>m_last\<close> and the captures. \<open>make_selection\<close> is the
  constructor; where \<^verbatim>\<open>window.cc\<close> passes two iterators only, the captures are
  empty.
\<close>

record Selection =
  m_first :: BufferIterator
  m_last :: BufferIterator
  m_captures :: "string list"

definition make_selection :: "BufferIterator \<Rightarrow> BufferIterator \<Rightarrow> string list \<Rightarrow> Selection" where
  "make_selection f l caps = \<lparr>m_first = f, m_last = l, m_captures = caps\<rparr>"

definition sel_begin :: "Selection \<Rightarrow> BufferIterator" where
  "sel_begin sel = min (m_first sel) (m_last sel)"

definition sel_end :: "Buffer \<Rightarrow> Selection \<Rightarrow> BufferIterator" where
  "sel_end b sel = it_plus b (max (m_first sel) (m_last sel)) 1"

definition merge_with :: "Selection \<Rightarrow> Selection \<Rightarrow> Selection" where
  "merge_with sel selection =
     (if m_first sel \<le> m_last sel
      then sel\<lparr>m_first := min (m_first sel) (m_first selection), m_last := m_last selection\<rparr>
      else sel\<lparr>m_first := max (m_first sel) (m_first selection), m_last := m_last selection\<rparr>)"

definition capture :: "Selection \<Rightarrow> nat \<Rightarrow> string" where
  "capture sel index = (if index < length (m_captures sel) then m_captures sel ! index else '''')"

section \<open>The display buffer\<close>

text \<open>
  Modelled from the spec: \<^verbatim>\<open>DisplayAtom\<close> and \<^verbatim>\<open>DisplayBuffer\<close> (their header and
  implementation are not part of the sources at hand). An atom has the display
  coordinate of its first cell, the two iterators delimiting its source slice and an
  optional replacement text; the display buffer is the sequence of its atoms. The two
  queries of an atom and the invariant check of the display buffer are not available:
  they are parameters of the model, collected in \<open>atom_queries\<close>.
\<close>

record DisplayAtom =
  atom_coord :: DisplayCoord
  atom_begin :: BufferIterator
  atom_end :: BufferIterator
  atom_replacement :: "string option"

type_synonym DisplayBuffer = "DisplayAtom list"

record atom_queries =
  atom_iterator_at :: "Buffer \<Rightarrow> DisplayAtom \<Rightarrow> DisplayCoord \<Rightarrow> BufferIterator"
  atom_line_and_column_at :: "Buffer \<Rightarrow> DisplayAtom \<Rightarrow> BufferIterator \<Rightarrow> DisplayCoord"
  display_buffer_invariant :: "DisplayBuffer \<Rightarrow> bool"

definition make_atom :: "DisplayCoord \<Rightarrow> BufferIterator \<Rightarrow> BufferIterator \<Rightarrow> DisplayAtom" where
  "make_atom c b e = \<lparr>atom_coord = c, atom_begin = b, atom_end = e, atom_replacement = None\<rparr>"

section \<open>The window\<close>

type_synonym Filter = "DisplayBuffer \<Rightarrow> DisplayBuffer"
type_synonym FilterAndId = "string \<times> Filter"

text \<open>
  \<open>m_current_inserter\<close> is the pointer to the active inserter: \<open>None\<close> is the null
  pointer, \<open>Some i\<close> the inserter of identity \<open>i\<close>.
\<close>

record Window =
  m_buffer :: Buffer
  m_position :: BufferCoord
  m_dimensions :: DisplayCoord
  m_selections :: "Selection list"
  m_display_buffer :: DisplayBuffer
  m_filters :: "FilterAndId list"
  m_current_inserter :: "nat option"

definition check_invariant :: "Window \<Rightarrow> bool" where
  "check_invariant w = (m_selections w \<noteq> [])"


subsection \<open>Coordinate mapping\<close>

text \<open>
  The loop of \<^verbatim>\<open>Window::iterator_at\<close>: \<open>prev\<close> is the atom before the current one,
  \<open>None\<close> at the first atom, where \<^verbatim>\<open>--atom_it\<close> steps before the beginning of the
  display buffer. The result \<open>None\<close> is the loop running to its end.
\<close>

fun iterator_at_loop ::
  "atom_queries \<Rightarrow> Buffer \<Rightarrow> DisplayAtom option \<Rightarrow> DisplayAtom list \<Rightarrow> DisplayCoord \<Rightarrow>
   (error + BufferIterator) option" where
  "iterator_at_loop Q b prev [] window_pos = None"
| "iterator_at_loop Q b prev (a # as) window_pos =
     (if coord_less window_pos (atom_coord a)
      then Some (case prev of
                   None \<Rightarrow> Inl undefined_behaviour
                 | Some p \<Rightarrow> Inr (atom_iterator_at Q b p window_pos))
      else iterator_at_loop Q b (Some a) as window_pos)"

definition iterator_at :: "atom_queries \<Rightarrow> Window \<Rightarrow> DisplayCoord \<Rightarrow> error + BufferIterator" where
  "iterator_at Q w window_pos =
     (if m_display_buffer w = [] then Inr (buffer_begin (m_buffer w))
      else
        (case (if coord_le (coord 0 0) window_pos
               then iterator_at_loop Q (m_buffer w) None (m_display_buffer w) window_pos
               else None) of
           Some r \<Rightarrow> r
         | None \<Rightarrow> Inr (buffer_iterator_at (m_buffer w) (coord_add (m_position w) window_pos))))"

fun line_and_column_at_loop ::
  "atom_queries \<Rightarrow> Buffer \<Rightarrow> DisplayAtom list \<Rightarrow> BufferIterator \<Rightarrow> (error + DisplayCoord) option" where
  "line_and_column_at_loop Q b [] it = None"
| "line_and_column_at_loop Q b (a # as) it =
     (if atom_end a > it
      then Some (if atom_begin a \<le> it then Inr (atom_line_and_column_at Q b a it)
                 else Inl assert_failed)
      else line_and_column_at_loop Q b as it)"

definition line_and_column_at :: "atom_queries \<Rightarrow> Window \<Rightarrow> BufferIterator \<Rightarrow> error + DisplayCoord" where
  "line_and_column_at Q w it =
     (if m_display_buffer w = [] then Inr (coord 0 0)
      else
        (case (if it \<ge> atom_begin (hd (m_display_buffer w)) \<and>
                  it < atom_end (last (m_display_buffer w))
               then line_and_column_at_loop Q (m_buffer w) (m_display_buffer w) it
               else None) of
           Some r \<Rightarrow> r
         | None \<Rightarrow>
             (let c = buffer_line_and_column_at (m_buffer w) it
              in Inr (coord (line c - line (m_position w)) (column c - column (m_position w))))))"

subsection \<open>Scrolling\<close>

definition scroll_position :: "BufferCoord \<Rightarrow> DisplayCoord \<Rightarrow> DisplayCoord \<Rightarrow> BufferCoord" where
  "scroll_position position dimensions cursor =
     (let p1 =
        (if line cursor < 0
         then position\<lparr>line := max (line position + line cursor) 0\<rparr>
         else if line cursor \<ge> line dimensions
         then position\<lparr>line := line position + (line cursor - (line dimensions - 1))\<rparr>
         else position)
      in
        (if column cursor < 0
         then p1\<lparr>column := max (column p1 + column cursor) 0\<rparr>
         else if column cursor \<ge> column dimensions
         then p1\<lparr>column := column p1 + (column cursor - (column dimensions - 1))\<rparr>
         else p1))"

definition scroll_to_keep_cursor_visible_ifn :: "atom_queries \<Rightarrow> Window \<Rightarrow> Window outcome" where
  "scroll_to_keep_cursor_visible_ifn Q w =
     (if \<not> check_invariant w then Raises assert_failed w
      else
        (case line_and_column_at Q w (m_last (last (m_selections w))) of
           Inl e \<Rightarrow> Raises e w
         | Inr cursor \<Rightarrow>
             Returns (w\<lparr>m_position := scroll_position (m_position w) (m_dimensions w) cursor\<rparr>)))"

subsection \<open>Editing\<close>

text \<open>
  \<^verbatim>\<open>scoped_undo_group\<close>: the constructor opens the group; the destructor closes it
  when the scope is left, by a return or by an exception.
\<close>

definition scoped_undo_group :: "(Window \<Rightarrow> Window outcome) \<Rightarrow> Window \<Rightarrow> Window outcome" where
  "scoped_undo_group body w =
     (case body (w\<lparr>m_buffer := begin_undo_group (m_buffer w)\<rparr>) of
        Returns w' \<Rightarrow> Returns (w'\<lparr>m_buffer := end_undo_group (m_buffer w')\<rparr>)
      | Raises e w' \<Rightarrow> Raises e (w'\<lparr>m_buffer := end_undo_group (m_buffer w')\<rparr>))"

fun erase_selections :: "Buffer \<Rightarrow> Selection list \<Rightarrow> Buffer" where
  "erase_selections b [] = b"
| "erase_selections b (sel # sels) =
     erase_selections (buffer_erase b (sel_begin sel) (sel_end b sel)) sels"

definition erase_noundo :: "atom_queries \<Rightarrow> Window \<Rightarrow> Window outcome" where
  "erase_noundo Q w =
     (if \<not> check_invariant w then Raises assert_failed w
      else scroll_to_keep_cursor_visible_ifn Q
             (w\<lparr>m_buffer := erase_selections (m_buffer w) (m_selections w)\<rparr>))"


fun insert_at_begins :: "Buffer \<Rightarrow> string \<Rightarrow> Selection list \<Rightarrow> Buffer" where
  "insert_at_begins b s [] = b"
| "insert_at_begins b s (sel # sels) =
     insert_at_begins (buffer_insert b (sel_begin sel) s) s sels"

definition insert_noundo :: "atom_queries \<Rightarrow> string \<Rightarrow> Window \<Rightarrow> Window outcome" where
  "insert_noundo Q s w =
     scroll_to_keep_cursor_visible_ifn Q
       (w\<lparr>m_buffer := insert_at_begins (m_buffer w) s (m_selections w)\<rparr>)"





definition replace :: "atom_queries \<Rightarrow> string \<Rightarrow> Window \<Rightarrow> Window outcome" where
  "replace Q s w =
     scoped_undo_group (\<lambda>w1. and_then (erase_noundo Q w1) (insert_noundo Q s)) w"

definition undo :: "Window \<Rightarrow> bool \<times> Window" where
  "undo w = (case buffer_undo (m_buffer w) of (r, b) \<Rightarrow> (r, w\<lparr>m_buffer := b\<rparr>))"


subsection \<open>Selecting and moving\<close>








subsection \<open>Display and filters\<close>

fun apply_filters :: "atom_queries \<Rightarrow> FilterAndId list \<Rightarrow> Window \<Rightarrow> Window outcome" where
  "apply_filters Q [] w = Returns w"
| "apply_filters Q (f # fs) w =
     (let w1 = w\<lparr>m_display_buffer := snd f (m_display_buffer w)\<rparr>
      in if \<not> display_buffer_invariant Q (m_display_buffer w1) then Raises assert_failed w1
         else apply_filters Q fs w1)"

definition update_display_buffer :: "atom_queries \<Rightarrow> Window \<Rightarrow> Window outcome" where
  "update_display_buffer Q w =
     (let w1 = w\<lparr>m_display_buffer := []\<rparr>;
          begin_it = buffer_iterator_at (m_buffer w) (m_position w);
          end_it = it_plus (m_buffer w)
                     (buffer_iterator_at (m_buffer w)
                        (coord_add (m_position w)
                           (coord (line (m_dimensions w)) (column (m_dimensions w))))) 1
      in if begin_it = end_it then Returns w1
         else apply_filters Q (m_filters w)
                (w1\<lparr>m_display_buffer := [make_atom (coord 0 0) begin_it end_it]\<rparr>))"


text \<open>
  The loop of \<^verbatim>\<open>Window::add_filter\<close>: it throws at the first filter with the id of
  the new one.
\<close>

fun id_in_use :: "FilterAndId list \<Rightarrow> string \<Rightarrow> bool" where
  "id_in_use [] ident = False"
| "id_in_use (f # fs) ident = (if fst f = ident then True else id_in_use fs ident)"

definition add_filter :: "FilterAndId \<Rightarrow> Window \<Rightarrow> Window outcome" where
  "add_filter f w =
     (if id_in_use (m_filters w) (fst f) then Raises (filter_id_not_unique (fst f)) w
      else Returns (w\<lparr>m_filters := m_filters w @ [f]\<rparr>))"

fun erase_first :: "FilterAndId list \<Rightarrow> string \<Rightarrow> FilterAndId list" where
  "erase_first [] ident = []"
| "erase_first (f # fs) ident = (if fst f = ident then fs else f # erase_first fs ident)"

definition remove_filter :: "string \<Rightarrow> Window \<Rightarrow> Window" where
  "remove_filter ident w = w\<lparr>m_filters := erase_first (m_filters w) ident\<rparr>"

section \<open>The incremental inserter\<close>

datatype Mode = Insert | Append | Change | OpenLineBelow | AppendAtLineEnd
  | OpenLineAbove | InsertAtLineBegin

text \<open>
  The two scanning loops of the constructor. Each dereferences the iterator it moves;
  outside the text that is undefined.
\<close>

function scan_to_line_end :: "Buffer \<Rightarrow> BufferIterator \<Rightarrow> error + BufferIterator" where
  "scan_to_line_end b pos =
     (if is_end b pos then Inr pos
      else
        (case deref b pos of
           None \<Rightarrow> Inl undefined_behaviour
         | Some c \<Rightarrow> if c \<noteq> newline then scan_to_line_end b (it_plus b pos 1) else Inr pos))"
  by pat_completeness auto
termination
  by (relation "measure (\<lambda>(b, pos). nat (buffer_length b - pos))")
     (auto simp: deref_def it_plus_def clamp_position_def split: if_splits)

function scan_to_line_begin :: "Buffer \<Rightarrow> BufferIterator \<Rightarrow> error + BufferIterator" where
  "scan_to_line_begin b pos =
     (if is_begin pos then Inr pos
      else
        (case deref b pos of
           None \<Rightarrow> Inl undefined_behaviour
         | Some c \<Rightarrow> if c \<noteq> newline then scan_to_line_begin b (it_minus b pos 1) else Inr pos))"
  by pat_completeness auto
termination
  by (relation "measure (\<lambda>(b, pos). nat pos)")
     (auto simp: deref_def it_minus_def clamp_position_def is_begin_def split: if_splits)

text \<open>
  The body of the constructor's loop up to the assignment to the selection: the buffer
  after it and the position \<open>pos\<close>.
\<close>

definition inserter_position ::
  "Mode \<Rightarrow> Buffer \<Rightarrow> Selection \<Rightarrow> error + (Buffer \<times> BufferIterator)" where
  "inserter_position mode b sel =
     (case mode of
        Insert \<Rightarrow> Inr (b, sel_begin sel)
      | Append \<Rightarrow> Inr (b, sel_end b sel)
      | Change \<Rightarrow> Inr (b, sel_begin sel)
      | OpenLineBelow \<Rightarrow>
          (case scan_to_line_end b (it_minus b (sel_end b sel) 1) of
             Inl e \<Rightarrow> Inl e
           | Inr pos \<Rightarrow>
               (let pos1 = it_plus b pos 1 in Inr (buffer_insert b pos1 [newline], pos1)))
      | AppendAtLineEnd \<Rightarrow>
          (case scan_to_line_end b (it_minus b (sel_end b sel) 1) of
             Inl e \<Rightarrow> Inl e
           | Inr pos \<Rightarrow> Inr (b, pos))
      | OpenLineAbove \<Rightarrow>
          (case scan_to_line_begin b (sel_begin sel) of
             Inl e \<Rightarrow> Inl e
           | Inr pos \<Rightarrow>
               (let b1 = buffer_insert b pos [newline] in Inr (b1, it_plus b1 pos 1)))
      | InsertAtLineBegin \<Rightarrow>
          (case scan_to_line_begin b (sel_begin sel) of
             Inl e \<Rightarrow> Inl e
           | Inr pos \<Rightarrow> Inr (b, it_plus b pos 1)))"

text \<open>
  The constructor's loop over the selections. When a step fails the selections before it
  have been reshaped and the others have not.
\<close>

fun reshape_selections ::
  "Mode \<Rightarrow> Buffer \<Rightarrow> Selection list \<Rightarrow>
   (error \<times> Buffer \<times> Selection list) + (Buffer \<times> Selection list)" where
  "reshape_selections mode b [] = Inr (b, [])"
| "reshape_selections mode b (sel # sels) =
     (case inserter_position mode b sel of
        Inl e \<Rightarrow> Inl (e, b, sel # sels)
      | Inr (b1, pos) \<Rightarrow>
          (case reshape_selections mode b1 sels of
             Inl (e, b2, sels') \<Rightarrow> Inl (e, b2, make_selection pos pos (m_captures sel) # sels')
           | Inr (b2, sels') \<Rightarrow> Inr (b2, make_selection pos pos (m_captures sel) # sels')))"

definition inserter_construct :: "atom_queries \<Rightarrow> nat \<Rightarrow> Mode \<Rightarrow> Window \<Rightarrow> Window outcome" where
  "inserter_construct Q this mode w =
     (if m_current_inserter w \<noteq> None then Raises assert_failed w
      else
        (let w1 = w\<lparr>m_current_inserter := Some this\<rparr>
         in if \<not> check_invariant w1 then Raises assert_failed w1
            else
              and_then
                (let w2 = w1\<lparr>m_buffer := begin_undo_group (m_buffer w1)\<rparr>
                 in if mode = Change then erase_noundo Q w2 else Returns w2)
                (\<lambda>w3. case reshape_selections mode (m_buffer w3) (m_selections w3) of
                         Inl (e, b, sels) \<Rightarrow> Raises e (w3\<lparr>m_buffer := b, m_selections := sels\<rparr>)
                       | Inr (b, sels) \<Rightarrow> Returns (w3\<lparr>m_buffer := b, m_selections := sels\<rparr>))))"

text \<open>
  \<^verbatim>\<open>IncrementalInserter::move_cursor\<close>: the display buffer, the buffer and the
  position it reads are not changed by the loop, so every selection is mapped through
  the same window \<open>w\<close>.
\<close>

fun move_selections ::
  "atom_queries \<Rightarrow> Window \<Rightarrow> DisplayCoord \<Rightarrow> Selection list \<Rightarrow>
   (error \<times> Selection list) + Selection list" where
  "move_selections Q w offset [] = Inr []"
| "move_selections Q w offset (sel # sels) =
     (case line_and_column_at Q w (m_last sel) of
        Inl e \<Rightarrow> Inl (e, sel # sels)
      | Inr pos \<Rightarrow>
          (case iterator_at Q w (coord_add pos offset) of
             Inl e \<Rightarrow> Inl (e, sel # sels)
           | Inr it \<Rightarrow>
               (case move_selections Q w offset sels of
                  Inl (e, sels') \<Rightarrow> Inl (e, make_selection it it [] # sels')
                | Inr sels' \<Rightarrow> Inr (make_selection it it [] # sels'))))"

definition inserter_move_cursor :: "atom_queries \<Rightarrow> DisplayCoord \<Rightarrow> Window \<Rightarrow> Window outcome" where
  "inserter_move_cursor Q offset w =
     (case move_selections Q w offset (m_selections w) of
        Inl (e, sels) \<Rightarrow> Raises e (w\<lparr>m_selections := sels\<rparr>)
      | Inr sels \<Rightarrow> Returns (w\<lparr>m_selections := sels\<rparr>))"

definition inserter_destruct :: "atom_queries \<Rightarrow> nat \<Rightarrow> Window \<Rightarrow> Window outcome" where
  "inserter_destruct Q this w =
     and_then (inserter_move_cursor Q (coord 0 (- 1)) w)
       (\<lambda>w1. if m_current_inserter w1 \<noteq> Some this then Raises assert_failed w1
              else Returns (w1\<lparr>m_current_inserter := None,
                                m_buffer := end_undo_group (m_buffer w1)\<rparr>))"





section \<open>The operations of a window\<close>



section \<open>Construction\<close>

definition new_buffer :: "string \<Rightarrow> Buffer" where
  "new_buffer contents =
     \<lparr>content = contents, current_undo_group = [], history = [], redo_history = [],
      open_undo_groups = 0\<rparr>"

text \<open>
  Modelled from the spec: \<^verbatim>\<open>FilterRegistry::add_filter_to_window\<close> (the filter
  registry is not part of the sources at hand). It finds the factory of the given name
  and calls \<^verbatim>\<open>add_filter\<close> with the filter the factory makes. The registry is the
  parameter \<open>registry\<close>, from names to filters.
\<close>

definition add_filter_to_window :: "(string \<Rightarrow> Filter) \<Rightarrow> string \<Rightarrow> Window \<Rightarrow> Window outcome" where
  "add_filter_to_window registry name w = add_filter (name, registry name) w"

text \<open>
  \<^verbatim>\<open>Window::Window\<close>: the window starts at position \<open>(0, 0)\<close> with dimensions
  \<open>(0, 0)\<close>, one caret at the beginning of the buffer, no inserter, and the three
  filters of the registry added in this order.
\<close>

definition window_construct :: "(string \<Rightarrow> Filter) \<Rightarrow> Buffer \<Rightarrow> Window outcome" where
  "window_construct registry buffer =
     and_then
       (and_then
          (add_filter_to_window registry ''expand_tabs''
             \<lparr>m_buffer = buffer, m_position = coord 0 0, m_dimensions = coord 0 0,
              m_selections = [make_selection (buffer_begin buffer) (buffer_begin buffer) []],
              m_display_buffer = [], m_filters = [], m_current_inserter = None\<rparr>)
          (add_filter_to_window registry ''highlight_selections''))
       (add_filter_to_window registry ''hlcpp'')"

section \<open>Concrete parameters\<close>

text \<open>
  One instance of the parameters, to run the model on concrete windows: the queries of
  an atom that shows its source slice as it is, a display buffer invariant that accepts
  every display buffer, and a registry whose filters leave the display buffer as it is.
\<close>

definition source_slice :: "Buffer \<Rightarrow> DisplayAtom \<Rightarrow> BufferIterator \<Rightarrow> string" where
  "source_slice b a it = take (nat (it - atom_begin a)) (drop (nat (atom_begin a)) (content b))"

definition raw_queries :: atom_queries where
  "raw_queries =
     \<lparr>atom_iterator_at =
        (\<lambda>b a c. atom_begin a +
                  int (first_position_at c (atom_coord a) 0 (source_slice b a (atom_end a)))),
      atom_line_and_column_at = (\<lambda>b a it. measure_from (atom_coord a) (source_slice b a it)),
      display_buffer_invariant = (\<lambda>db. True)\<rparr>"

definition identity_registry :: "string \<Rightarrow> Filter" where
  "identity_registry name = (\<lambda>db. db)"

section \<open>Undo bookkeeping\<close>

text \<open>
  A modification is valid on a text when it describes a change that text can undergo: an
  insertion inside it, or the erasure of a run that is there. \<open>extends b b'\<close> says
  that \<open>b'\<close> is \<open>b\<close> after more modifications, all valid and all recorded in the
  current undo group, with the history untouched.
\<close>

fun valid_modification :: "string \<Rightarrow> Modification \<Rightarrow> bool" where
  "valid_modification c (Insertion p s) = (p \<le> length c)"
| "valid_modification c (Erasure p s) = (p \<le> length c \<and> take (length s) (drop p c) = s)"

fun valid_sequence :: "string \<Rightarrow> Modification list \<Rightarrow> bool" where
  "valid_sequence c [] = True"
| "valid_sequence c (m # ms) = (valid_modification c m \<and> valid_sequence (apply_modification c m) ms)"

definition extends_by :: "Buffer \<Rightarrow> Modification list \<Rightarrow> Buffer \<Rightarrow> bool" where
  "extends_by b ms b' =
     (history b' = history b \<and> redo_history b' = redo_history b \<and>
      open_undo_groups b' = open_undo_groups b \<and>
      current_undo_group b' = current_undo_group b @ ms \<and>
      valid_sequence (content b) ms \<and>
      content b' = replay (content b) ms)"

section \<open>Concrete windows\<close>

text \<open>
  A window on the text \<open>foo\<close> whose one selection covers the three characters, and the
  window the constructor makes on the two lines \<open>abc\<close> and \<open>def\<close>.
\<close>

definition foo_window :: Window where
  "foo_window =
     \<lparr>m_buffer = new_buffer ''foo'', m_position = coord 0 0, m_dimensions = coord 3 80,
      m_selections = [make_selection 0 2 []], m_display_buffer = [], m_filters = [],
      m_current_inserter = None\<rparr>"

definition two_lines :: string where
  "two_lines = ''abc'' @ [newline] @ ''def''"

definition two_line_window :: Window where
  "two_line_window = state_of (window_construct identity_registry (new_buffer two_lines))"

text \<open>
  A window on the two lines with two selections that carry captures, one forward and
  one reverse; and a window in the middle of an insertion session, with the display
  buffer that \<open>update_display_buffer\<close> builds for it.
\<close>

definition captured_window :: Window where
  "captured_window =
     \<lparr>m_buffer = new_buffer two_lines, m_position = coord 0 0, m_dimensions = coord 3 80,
      m_selections = [make_selection 1 2 [''x''], make_selection 5 4 [''y'', ''z'']],
      m_display_buffer = [], m_filters = [], m_current_inserter = None\<rparr>"

definition inserting_window :: Window where
  "inserting_window =
     \<lparr>m_buffer = begin_undo_group (new_buffer two_lines),
      m_position = coord 0 0, m_dimensions = coord 3 80,
      m_selections = [make_selection 3 3 [], make_selection 4 6 [''y'']],
      m_display_buffer = [make_atom (coord 0 0) 0 7], m_filters = [],
      m_current_inserter = Some 1\<rparr>"

text \<open>
  Twelve lines of one character each; a window on them with the cursor on line 10 whose
  display buffer has never been built, and the same window with the display buffer that
  \<open>update_display_buffer\<close> builds for it. Then a window on the two lines whose
  display buffer has one atom for each line.
\<close>

definition twelve_lines :: string where
  "twelve_lines = concat (replicate 12 (''a'' @ [newline]))"

definition unrendered_window :: Window where
  "unrendered_window =
     \<lparr>m_buffer = new_buffer twelve_lines, m_position = coord 0 0, m_dimensions = coord 3 80,
      m_selections = [make_selection 20 20 []], m_display_buffer = [], m_filters = [],
      m_current_inserter = None\<rparr>"

definition rendered_window :: Window where
  "rendered_window =
     \<lparr>m_buffer = new_buffer twelve_lines, m_position = coord 0 0, m_dimensions = coord 3 80,
      m_selections = [make_selection 20 20 []],
      m_display_buffer = [make_atom (coord 0 0) 0 9], m_filters = [],
      m_current_inserter = None\<rparr>"

definition split_window :: Window where
  "split_window =
     \<lparr>m_buffer = new_buffer two_lines, m_position = coord 0 0, m_dimensions = coord 3 80,
      m_selections = [make_selection 0 0 []],
      m_display_buffer = [make_atom (coord 0 0) 0 4, make_atom (coord 1 0) 4 7],
      m_filters = [], m_current_inserter = None\<rparr>"


section \<open>Selections: merging and captures\<close>

lemmas selection_defs = merge_with_def make_selection_def capture_def

text \<open>
  Claim C1. After \<open>merge_with\<close> the cursor is the cursor of the other selection. A
  forward selection gets the smaller of the two anchors, and is forward afterwards
  exactly when its old anchor or the other anchor is not after the other cursor (so
  whenever the other selection is forward itself); a reverse selection gets the larger
  of the two anchors, and is reverse afterwards exactly when its old anchor or the other
  anchor is not before the other cursor.
\<close>

theorem merge_with_direction:
  "m_last (merge_with sel other) = m_last other \<and>
   (m_first sel \<le> m_last sel \<longrightarrow>
      m_first (merge_with sel other) = min (m_first sel) (m_first other) \<and>
      (m_first (merge_with sel other) \<le> m_last (merge_with sel other)
         \<longleftrightarrow> m_first sel \<le> m_last other \<or> m_first other \<le> m_last other)) \<and>
   (m_first sel > m_last sel \<longrightarrow>
      m_first (merge_with sel other) = max (m_first sel) (m_first other) \<and>
      (m_first (merge_with sel other) \<ge> m_last (merge_with sel other)
         \<longleftrightarrow> m_first sel \<ge> m_last other \<or> m_first other \<ge> m_last other))"
  by (auto simp: merge_with_def)

theorem merge_with_direction_witness:
  "m_first (make_selection 2 5 []) \<le> m_last (make_selection 2 5 []) \<and>
   m_first (make_selection 9 7 []) > m_last (make_selection 9 7 []) \<and>
   merge_with (make_selection 2 5 []) (make_selection 0 10 []) = make_selection 0 10 [] \<and>
   merge_with (make_selection 9 7 []) (make_selection 12 3 []) = make_selection 12 3 [] \<and>
   m_first (merge_with (make_selection 2 5 []) (make_selection 0 10 []))
     \<le> m_last (merge_with (make_selection 2 5 []) (make_selection 0 10 [])) \<and>
   m_first (merge_with (make_selection 9 7 []) (make_selection 12 3 []))
     \<ge> m_last (merge_with (make_selection 9 7 []) (make_selection 12 3 []))"
  using merge_with_direction [of "make_selection 2 5 []" "make_selection 0 10 []"]
        merge_with_direction [of "make_selection 9 7 []" "make_selection 12 3 []"]
  by (simp add: selection_defs)

text \<open>
  The direction is not kept in general: the forward selection from 5 to 6 merged with
  the selection from 8 to 3 runs from 5 back to 3, and the reverse selection from 9 to 7
  merged with the selection from 0 to 10 runs from 9 forward to 10.
\<close>

theorem merge_with_direction_counterexample:
  "m_first (make_selection 5 6 []) \<le> m_last (make_selection 5 6 []) \<and>
   \<not> m_first (merge_with (make_selection 5 6 []) (make_selection 8 3 []))
       \<le> m_last (merge_with (make_selection 5 6 []) (make_selection 8 3 [])) \<and>
   m_first (make_selection 9 7 []) > m_last (make_selection 9 7 []) \<and>
   \<not> m_first (merge_with (make_selection 9 7 []) (make_selection 0 10 []))
       \<ge> m_last (merge_with (make_selection 9 7 []) (make_selection 0 10 []))"
  by (simp add: selection_defs)

section \<open>Filters\<close>

lemma id_in_use_iff: "id_in_use fs ident \<longleftrightarrow> ident \<in> fst ` set fs"
  by (induction fs) auto

lemma erase_first_absent: "ident \<notin> fst ` set fs \<Longrightarrow> erase_first fs ident = fs"
  by (induction fs) auto

lemma and_then_Returns:
  "and_then r f = Returns w' \<Longrightarrow> \<exists>w1. r = Returns w1 \<and> f w1 = Returns w'"
  by (cases r) auto

lemma two_line_window_filters:
  "map fst (m_filters two_line_window) = [''expand_tabs'', ''highlight_selections'', ''hlcpp'']"
  by (simp add: two_line_window_def window_construct_def add_filter_to_window_def
                add_filter_def)

text \<open>
  Claim C8. \<open>add_filter\<close> throws \<open>filter_id_not_unique\<close> with the id of the new
  filter exactly when a filter of the window has that id already, and the window is
  then as it was; otherwise it returns with the new filter appended at the end of the
  filters.
\<close>

theorem add_filter_unique:
  "(fst f \<in> fst ` set (m_filters w) \<longrightarrow>
      add_filter f w = Raises (filter_id_not_unique (fst f)) w) \<and>
   (fst f \<notin> fst ` set (m_filters w) \<longrightarrow>
      add_filter f w = Returns (w\<lparr>m_filters := m_filters w @ [f]\<rparr>)) \<and>
   ((\<exists>e w'. add_filter f w = Raises e w') \<longleftrightarrow> fst f \<in> fst ` set (m_filters w))"
  by (auto simp: add_filter_def id_in_use_iff)

theorem add_filter_unique_witness:
  "''hlcpp'' \<in> fst ` set (m_filters two_line_window) \<and>
   add_filter (''hlcpp'', \<lambda>db. db) two_line_window
     = Raises (filter_id_not_unique ''hlcpp'') two_line_window \<and>
   ''numbers'' \<notin> fst ` set (m_filters two_line_window) \<and>
   map fst (m_filters (state_of (add_filter (''numbers'', \<lambda>db. []) two_line_window)))
     = [''expand_tabs'', ''highlight_selections'', ''hlcpp'', ''numbers'']"
proof -
  have a: "''hlcpp'' \<in> fst ` set (m_filters two_line_window)"
    using two_line_window_filters by (simp flip: set_map)
  have b: "''numbers'' \<notin> fst ` set (m_filters two_line_window)"
    using two_line_window_filters by (simp flip: set_map)
  show ?thesis
    using a b add_filter_unique [of "(''hlcpp'', \<lambda>db. db)" two_line_window]
          add_filter_unique [of "(''numbers'', \<lambda>db. [])" two_line_window]
          two_line_window_filters
    by simp
qed

text \<open>
  Claim C9. \<open>capture\<close> returns the capture of the given index when the index is
  within the captures and the empty string otherwise, and \<open>remove_filter\<close> with an
  id that no filter of the window has leaves the filters as they were.
\<close>

theorem silent_no_ops:
  "(index < length (m_captures sel) \<longrightarrow> capture sel index = m_captures sel ! index) \<and>
   (\<not> index < length (m_captures sel) \<longrightarrow> capture sel index = '''') \<and>
   (ident \<notin> fst ` set (m_filters w) \<longrightarrow> m_filters (remove_filter ident w) = m_filters w)"
  by (simp add: capture_def remove_filter_def erase_first_absent)

theorem silent_no_ops_witness:
  "capture (make_selection 0 2 [''a'', ''bc'']) 1 = ''bc'' \<and>
   capture (make_selection 0 2 [''a'', ''bc'']) 2 = '''' \<and>
   ''numbers'' \<notin> fst ` set (m_filters two_line_window) \<and>
   m_filters (remove_filter ''numbers'' two_line_window) = m_filters two_line_window"
proof -
  have b: "''numbers'' \<notin> fst ` set (m_filters two_line_window)"
    using two_line_window_filters by (simp flip: set_map)
  show ?thesis
    using b silent_no_ops [of 1 "make_selection 0 2 [''a'', ''bc'']" "''numbers''" two_line_window]
          silent_no_ops [of 2 "make_selection 0 2 [''a'', ''bc'']" "''numbers''" two_line_window]
    by (simp add: make_selection_def)
qed

section \<open>Scrolling leaves everything but the position\<close>

lemma scroll_state_eq:
  "\<exists>p. state_of (scroll_to_keep_cursor_visible_ifn Q w) = w\<lparr>m_position := p\<rparr>"
proof (cases "scroll_to_keep_cursor_visible_ifn Q w")
  case (Returns w')
  then have "w' = w\<lparr>m_position := m_position w'\<rparr>"
    by (auto simp: scroll_to_keep_cursor_visible_ifn_def split: if_splits sum.splits)
  with Returns show ?thesis by (metis state_of.simps(1))
next
  case (Raises e w')
  then have "w' = w\<lparr>m_position := m_position w\<rparr>"
    by (auto simp: scroll_to_keep_cursor_visible_ifn_def split: if_splits sum.splits)
  with Raises show ?thesis by (metis state_of.simps(2))
qed

lemma scroll_Returns_eq:
  "scroll_to_keep_cursor_visible_ifn Q w = Returns w' \<Longrightarrow>
     (\<exists>p. w' = w\<lparr>m_position := p\<rparr>) \<and> m_selections w \<noteq> []"
  using scroll_state_eq [of Q w]
  by (auto simp: scroll_to_keep_cursor_visible_ifn_def check_invariant_def split: if_splits)


lemma erase_noundo_Returns_eq:
  "erase_noundo Q w = Returns w' \<Longrightarrow>
     m_buffer w' = erase_selections (m_buffer w) (m_selections w) \<and>
     m_selections w' = m_selections w \<and> m_selections w \<noteq> []"
  by (auto simp: erase_noundo_def split: if_splits dest!: scroll_Returns_eq)

lemma insert_noundo_Returns_eq:
  "insert_noundo Q s w = Returns w' \<Longrightarrow>
     m_buffer w' = insert_at_begins (m_buffer w) s (m_selections w) \<and>
     m_selections w' = m_selections w \<and> m_selections w \<noteq> []"
  by (auto simp: insert_noundo_def dest!: scroll_Returns_eq)



lemma scoped_undo_group_state:
  "m_buffer (state_of (scoped_undo_group body w))
     = end_undo_group (m_buffer (state_of (body (w\<lparr>m_buffer := begin_undo_group (m_buffer w)\<rparr>))))"
  by (simp add: scoped_undo_group_def split: outcome.splits)

section \<open>Undo groups\<close>

lemma replay_append: "replay c (ms @ ns) = replay (replay c ms) ns"
  by (simp add: replay_def)

lemma valid_sequence_append:
  "valid_sequence c (ms @ ns) \<longleftrightarrow> valid_sequence c ms \<and> valid_sequence (replay c ms) ns"
  by (induction ms arbitrary: c) (auto simp: replay_def)

lemma inverse_modification_undoes:
  "valid_modification c m \<Longrightarrow>
     apply_modification (apply_modification c m) (inverse_modification m) = c"
proof (cases m)
  case (Insertion p s)
  assume "valid_modification c m"
  with Insertion show ?thesis by simp
next
  case (Erasure p s)
  assume v: "valid_modification c m"
  with Erasure have p: "p \<le> length c" and s: "take (length s) (drop p c) = s" by simp_all
  have a: "drop (p + length s) c = drop (length s) (drop p c)"
    by (simp add: add.commute)
  have "take p c @ s @ drop (p + length s) c
          = take p c @ (take (length s) (drop p c) @ drop (length s) (drop p c))"
    by (simp only: a s)
  also have "\<dots> = c" by (simp only: append_take_drop_id)
  finally show ?thesis using Erasure p by (simp add: min_absorb2)
qed

lemma replay_inverse:
  "valid_sequence c ms \<Longrightarrow> replay (replay c ms) (map inverse_modification (rev ms)) = c"
proof (induction ms arbitrary: c)
  case Nil
  then show ?case by (simp add: replay_def)
next
  case (Cons m ms)
  then have "replay (replay (apply_modification c m) ms) (map inverse_modification (rev ms))
              = apply_modification c m" by simp
  then show ?case
    using Cons.prems by (simp add: replay_def inverse_modification_undoes)
qed

lemma extends_by_refl: "extends_by b [] b"
  by (simp add: extends_by_def replay_def)

lemma extends_by_trans:
  "extends_by b ms b1 \<Longrightarrow> extends_by b1 ns b2 \<Longrightarrow> extends_by b (ms @ ns) b2"
  by (simp add: extends_by_def replay_append valid_sequence_append)

lemma extends_by_insert:
  "extends_by b [Insertion (nat (clamp_position b pos)) s] (buffer_insert b pos s)"
  by (simp add: extends_by_def buffer_insert_def record_modification_def replay_def
                clamp_position_def buffer_length_def)

lemma extends_by_erase:
  "\<exists>m. extends_by b [m] (buffer_erase b f l)"
  by (auto simp: extends_by_def buffer_erase_def record_modification_def replay_def
                clamp_position_def buffer_length_def Let_def min_def max_def)

lemma erase_selections_extends: "\<exists>ms. extends_by b ms (erase_selections b sels)"
proof (induction sels arbitrary: b)
  case Nil
  show ?case using extends_by_refl by auto
next
  case (Cons sel sels)
  obtain m where "extends_by b [m] (buffer_erase b (sel_begin sel) (sel_end b sel))"
    using extends_by_erase by blast
  moreover obtain ms where
    "extends_by (buffer_erase b (sel_begin sel) (sel_end b sel)) ms
       (erase_selections (buffer_erase b (sel_begin sel) (sel_end b sel)) sels)"
    using Cons.IH by blast
  ultimately show ?case using extends_by_trans by fastforce
qed

lemma insert_at_begins_extends: "\<exists>ms. extends_by b ms (insert_at_begins b s sels)"
proof (induction sels arbitrary: b)
  case Nil
  show ?case using extends_by_refl by auto
next
  case (Cons sel sels)
  obtain ms where
    "extends_by (buffer_insert b (sel_begin sel) s) ms
       (insert_at_begins (buffer_insert b (sel_begin sel) s) s sels)"
    using Cons.IH by blast
  then show ?case using extends_by_trans [OF extends_by_insert] by fastforce
qed

lemma erase_noundo_buffer:
  "\<exists>ms. extends_by (m_buffer w) ms (m_buffer (state_of (erase_noundo Q w)))"
proof (cases "check_invariant w")
  case False
  then show ?thesis using extends_by_refl by (auto simp: erase_noundo_def)
next
  case True
  obtain p where
    "state_of (scroll_to_keep_cursor_visible_ifn Q
        (w\<lparr>m_buffer := erase_selections (m_buffer w) (m_selections w)\<rparr>))
       = w\<lparr>m_buffer := erase_selections (m_buffer w) (m_selections w), m_position := p\<rparr>"
    using scroll_state_eq by blast
  with True show ?thesis
    using erase_selections_extends [of "m_buffer w" "m_selections w"]
    by (simp add: erase_noundo_def)
qed

lemma insert_noundo_buffer:
  "\<exists>ms. extends_by (m_buffer w) ms (m_buffer (state_of (insert_noundo Q s w)))"
proof -
  obtain p where
    "state_of (scroll_to_keep_cursor_visible_ifn Q
        (w\<lparr>m_buffer := insert_at_begins (m_buffer w) s (m_selections w)\<rparr>))
       = w\<lparr>m_buffer := insert_at_begins (m_buffer w) s (m_selections w), m_position := p\<rparr>"
    using scroll_state_eq by blast
  then show ?thesis
    using insert_at_begins_extends [of "m_buffer w" s "m_selections w"]
    by (simp add: insert_noundo_def)
qed

lemma replace_body_buffer:
  "\<exists>ms. extends_by (m_buffer w) ms
          (m_buffer (state_of (and_then (erase_noundo Q w) (insert_noundo Q s))))"
proof (cases "erase_noundo Q w")
  case (Returns w1)
  obtain ms where a: "extends_by (m_buffer w) ms (m_buffer w1)"
    using erase_noundo_buffer [of w Q] Returns by auto
  obtain ns where "extends_by (m_buffer w1) ns (m_buffer (state_of (insert_noundo Q s w1)))"
    using insert_noundo_buffer by blast
  with a Returns show ?thesis using extends_by_trans by fastforce
next
  case (Raises e w1)
  then show ?thesis using erase_noundo_buffer [of w Q] by auto
qed

lemmas window_eval =
  replace_def scoped_undo_group_def erase_noundo_def insert_noundo_def
  scroll_to_keep_cursor_visible_ifn_def check_invariant_def line_and_column_at_def
  scroll_position_def coord_def make_selection_def new_buffer_def
  begin_undo_group_def end_undo_group_def buffer_erase_def buffer_insert_def
  record_modification_def clamp_position_def buffer_length_def sel_begin_def sel_end_def
  it_plus_def it_minus_def undo_def buffer_undo_def replay_def Let_def

text \<open>
  Claim C4. \<open>replace\<close> erases every selection and inserts the string inside one undo
  group. On every way out, by a return or by an exception, the history has grown by
  exactly one group, which holds what was pending in the current group followed by the
  modifications \<open>replace\<close> made, no group is left open and the current group is empty;
  on a return the buffer is the one after \<open>begin_undo_group\<close>, the erasures, the
  insertions and \<open>end_undo_group\<close>, in this order. When no modification was pending,
  one \<open>undo\<close> afterwards succeeds and gives back the text the buffer had before.
\<close>

theorem replace_one_undo_group:
  "(\<exists>ms. history (m_buffer (state_of (replace Q s w)))
            = (current_undo_group (m_buffer w) @ ms) # history (m_buffer w) \<and>
          content (m_buffer (state_of (replace Q s w))) = replay (content (m_buffer w)) ms) \<and>
   current_undo_group (m_buffer (state_of (replace Q s w))) = [] \<and>
   open_undo_groups (m_buffer (state_of (replace Q s w))) = open_undo_groups (m_buffer w) \<and>
   (replace Q s w = Returns w' \<longrightarrow>
      m_buffer w' =
        end_undo_group
          (insert_at_begins
             (erase_selections (begin_undo_group (m_buffer w)) (m_selections w))
             s (m_selections w))) \<and>
   (current_undo_group (m_buffer w) = [] \<longrightarrow>
      fst (undo (state_of (replace Q s w))) \<and>
      content (m_buffer (snd (undo (state_of (replace Q s w))))) = content (m_buffer w))"
proof -
  let ?w0 = "w\<lparr>m_buffer := begin_undo_group (m_buffer w)\<rparr>"
  let ?body = "\<lambda>w1. and_then (erase_noundo Q w1) (insert_noundo Q s)"
  let ?b1 = "m_buffer (state_of (?body ?w0))"
  let ?b' = "m_buffer (state_of (replace Q s w))"
  obtain ms where ext: "extends_by (begin_undo_group (m_buffer w)) ms ?b1"
    using replace_body_buffer [of ?w0 Q s] by auto
  have b': "?b' = end_undo_group ?b1"
    by (simp add: replace_def scoped_undo_group_state)
  have hist: "history ?b' = (current_undo_group (m_buffer w) @ ms) # history (m_buffer w)"
    using ext by (simp add: b' end_undo_group_def extends_by_def begin_undo_group_def)
  have cont: "content ?b' = replay (content (m_buffer w)) ms"
    using ext by (simp add: b' end_undo_group_def extends_by_def begin_undo_group_def)
  have valid: "valid_sequence (content (m_buffer w)) ms"
    using ext by (simp add: extends_by_def begin_undo_group_def)
  have cur: "current_undo_group ?b' = []"
    by (simp add: b' end_undo_group_def)
  have opn: "open_undo_groups ?b' = open_undo_groups (m_buffer w)"
    using ext by (simp add: b' end_undo_group_def extends_by_def begin_undo_group_def)
  have ret: "replace Q s w = Returns w' \<longrightarrow>
      m_buffer w' =
        end_undo_group
          (insert_at_begins
             (erase_selections (begin_undo_group (m_buffer w)) (m_selections w))
             s (m_selections w))"
    by (auto simp: replace_def scoped_undo_group_def split: outcome.splits
             dest!: and_then_Returns erase_noundo_Returns_eq insert_noundo_Returns_eq)
  have und: "current_undo_group (m_buffer w) = [] \<longrightarrow>
      fst (undo (state_of (replace Q s w))) \<and>
      content (m_buffer (snd (undo (state_of (replace Q s w))))) = content (m_buffer w)"
    using hist cont valid
    by (simp add: undo_def buffer_undo_def replay_inverse split: prod.splits)
  from hist cont cur opn ret und show ?thesis by blast
qed

theorem replace_one_undo_group_witness:
  "current_undo_group (m_buffer foo_window) = [] \<and>
   replace raw_queries ''bar'' foo_window
     = Returns (state_of (replace raw_queries ''bar'' foo_window)) \<and>
   content (m_buffer (state_of (replace raw_queries ''bar'' foo_window))) = ''bar'' \<and>
   history (m_buffer (state_of (replace raw_queries ''bar'' foo_window)))
     = [[Erasure 0 ''foo'', Insertion 0 ''bar'']] \<and>
   open_undo_groups (m_buffer (state_of (replace raw_queries ''bar'' foo_window))) = 0 \<and>
   fst (undo (state_of (replace raw_queries ''bar'' foo_window))) \<and>
   content (m_buffer (snd (undo (state_of (replace raw_queries ''bar'' foo_window))))) = ''foo'' \<and>
   replace raw_queries ''bar'' (foo_window\<lparr>m_selections := []\<rparr>)
     = Raises assert_failed (state_of (replace raw_queries ''bar'' (foo_window\<lparr>m_selections := []\<rparr>))) \<and>
   history (m_buffer (state_of (replace raw_queries ''bar'' (foo_window\<lparr>m_selections := []\<rparr>))))
     = [[]] \<and>
   open_undo_groups
     (m_buffer (state_of (replace raw_queries ''bar'' (foo_window\<lparr>m_selections := []\<rparr>)))) = 0"
proof -
  have a: "current_undo_group (m_buffer foo_window) = []"
    by (simp add: foo_window_def new_buffer_def)
  have b: "replace raw_queries ''bar'' foo_window
             = Returns (state_of (replace raw_queries ''bar'' foo_window))"
    by (simp add: foo_window_def window_eval)
  show ?thesis
    using a b
      replace_one_undo_group [of raw_queries "''bar''" foo_window
                                 "state_of (replace raw_queries ''bar'' foo_window)"]
      replace_one_undo_group [of raw_queries "''bar''" "foo_window\<lparr>m_selections := []\<rparr>"]
    by (simp add: foo_window_def window_eval)
qed

section \<open>The inserter and the selections\<close>

lemmas inserter_eval =
  inserter_construct_def inserter_destruct_def inserter_move_cursor_def
  inserter_position_def iterator_at_def line_and_column_at_def
  raw_queries_def source_slice_def make_atom_def two_lines_def newline_def
  deref_def is_end_def is_begin_def coord_add_def coord_le_def coord_less_def
  buffer_line_and_column_at_def buffer_iterator_at_def measure_string_def buffer_begin_def















lemma inserting_window_display_buffer:
  "m_display_buffer (state_of (update_display_buffer raw_queries
      (inserting_window\<lparr>m_display_buffer := []\<rparr>))) = m_display_buffer inserting_window"
  by (simp add: inserting_window_def update_display_buffer_def window_eval inserter_eval)


section \<open>The selections are never empty after a return\<close>











section \<open>Scrolling\<close>


lemma twelve_lines_text:
  "twelve_lines = [CHR ''a'', newline, CHR ''a'', newline, CHR ''a'', newline, CHR ''a'', newline,
     CHR ''a'', newline, CHR ''a'', newline, CHR ''a'', newline, CHR ''a'', newline,
     CHR ''a'', newline, CHR ''a'', newline, CHR ''a'', newline, CHR ''a'', newline]"
  by (simp add: twelve_lines_def eval_nat_numeral)




lemma rendered_window_display_buffer:
  "m_display_buffer (state_of (update_display_buffer raw_queries unrendered_window))
     = m_display_buffer rendered_window"
  by (simp add: unrendered_window_def rendered_window_def update_display_buffer_def
        twelve_lines_text window_eval inserter_eval)


section \<open>From display coordinates to iterators\<close>


lemma coord_le_not_less: "coord_le a b \<Longrightarrow> \<not> coord_less b a"
  by (auto simp: coord_le_def coord_less_def split: if_splits)

lemma coord_le_trans: "coord_le a b \<Longrightarrow> coord_le b c \<Longrightarrow> coord_le a c"
  by (auto simp: coord_le_def split: if_splits)

lemma coord_le_refl: "coord_le a a"
  by (simp add: coord_le_def)

lemma iterator_at_loop_None:
  "\<forall>x \<in> set as. \<not> coord_less p (atom_coord x) \<Longrightarrow> iterator_at_loop Q b prev as p = None"
  by (induction as arbitrary: prev) auto

lemma iterator_at_loop_found:
  "\<forall>x \<in> set pre. \<not> coord_less p (atom_coord x) \<Longrightarrow> coord_less p (atom_coord a) \<Longrightarrow>
     iterator_at_loop Q b prev (pre @ a # post) p =
       Some (case (if pre = [] then prev else Some (last pre)) of
               None \<Rightarrow> Inl undefined_behaviour
             | Some q \<Rightarrow> Inr (atom_iterator_at Q b q p))"
  by (induction pre arbitrary: prev) auto

lemma sorted_wrt_le_last:
  assumes "sorted_wrt (\<lambda>x y. coord_le (atom_coord x) (atom_coord y)) db" and "x \<in> set db"
  shows "coord_le (atom_coord x) (atom_coord (last db))"
proof -
  from assms(2) have ne: "db \<noteq> []" by auto
  then have db: "db = butlast db @ [last db]" by simp
  with assms(1) have "\<forall>y \<in> set (butlast db). coord_le (atom_coord y) (atom_coord (last db))"
    by (metis sorted_wrt_append list.set_intros(1))
  moreover from db assms(2) have "x \<in> set (butlast db) \<or> x = last db"
    by (metis Un_iff empty_iff empty_set set_ConsD set_append)
  ultimately show ?thesis using coord_le_refl by auto
qed

text \<open>
  Claim C6. \<open>iterator_at\<close> returns the beginning of the buffer when the display
  buffer is empty. For a position not below \<open>(0, 0)\<close>, when \<open>a\<close> is the first atom
  whose coordinate is strictly above the position, it returns what the atom before
  \<open>a\<close> gives for the position; there is an atom before \<open>a\<close> when the first atom
  is at \<open>(0, 0)\<close>. With a display buffer that is not empty, for a position below
  \<open>(0, 0)\<close>, or one not below the coordinate of the last atom of a display buffer
  whose coordinates do not decrease, it returns the iterator of the buffer at the sum of
  the window's position and the given one.
\<close>

theorem iterator_at_cases:
  "(m_display_buffer w = [] \<longrightarrow> iterator_at Q w p = Inr (buffer_begin (m_buffer w))) \<and>
   (coord_le (coord 0 0) p \<and> m_display_buffer w = pre @ a # post \<and>
    (pre \<noteq> [] \<or> atom_coord (hd (m_display_buffer w)) = coord 0 0) \<and>
    (\<forall>x \<in> set pre. \<not> coord_less p (atom_coord x)) \<and> coord_less p (atom_coord a) \<longrightarrow>
      pre \<noteq> [] \<and> iterator_at Q w p = Inr (atom_iterator_at Q (m_buffer w) (last pre) p)) \<and>
   (m_display_buffer w \<noteq> [] \<and>
    (\<not> coord_le (coord 0 0) p \<or>
     sorted_wrt (\<lambda>x y. coord_le (atom_coord x) (atom_coord y)) (m_display_buffer w) \<and>
     coord_le (atom_coord (last (m_display_buffer w))) p) \<longrightarrow>
      iterator_at Q w p =
        Inr (buffer_iterator_at (m_buffer w) (coord_add (m_position w) p)))"
proof -
  have empty: "m_display_buffer w = [] \<longrightarrow> iterator_at Q w p = Inr (buffer_begin (m_buffer w))"
    by (simp add: iterator_at_def)
  have delegate: "coord_le (coord 0 0) p \<and> m_display_buffer w = pre @ a # post \<and>
    (pre \<noteq> [] \<or> atom_coord (hd (m_display_buffer w)) = coord 0 0) \<and>
    (\<forall>x \<in> set pre. \<not> coord_less p (atom_coord x)) \<and> coord_less p (atom_coord a) \<longrightarrow>
      pre \<noteq> [] \<and> iterator_at Q w p = Inr (atom_iterator_at Q (m_buffer w) (last pre) p)"
  proof (intro impI, elim conjE)
    assume le: "coord_le (coord 0 0) p" and db: "m_display_buffer w = pre @ a # post"
      and front: "pre \<noteq> [] \<or> atom_coord (hd (m_display_buffer w)) = coord 0 0"
      and before: "\<forall>x \<in> set pre. \<not> coord_less p (atom_coord x)"
      and here: "coord_less p (atom_coord a)"
    have ne: "pre \<noteq> []"
    proof
      assume "pre = []"
      with db front have "atom_coord a = coord 0 0" by simp
      with here le show False using coord_le_not_less by auto
    qed
    with le db show "pre \<noteq> [] \<and>
        iterator_at Q w p = Inr (atom_iterator_at Q (m_buffer w) (last pre) p)"
      using iterator_at_loop_found [OF before here, of Q "m_buffer w" None post]
      by (simp add: iterator_at_def)
  qed
  have fallback: "m_display_buffer w \<noteq> [] \<and>
    (\<not> coord_le (coord 0 0) p \<or>
     sorted_wrt (\<lambda>x y. coord_le (atom_coord x) (atom_coord y)) (m_display_buffer w) \<and>
     coord_le (atom_coord (last (m_display_buffer w))) p) \<longrightarrow>
      iterator_at Q w p =
        Inr (buffer_iterator_at (m_buffer w) (coord_add (m_position w) p))"
  proof (intro impI, elim conjE)
    assume ne: "m_display_buffer w \<noteq> []"
      and c: "\<not> coord_le (coord 0 0) p \<or>
         sorted_wrt (\<lambda>x y. coord_le (atom_coord x) (atom_coord y)) (m_display_buffer w) \<and>
         coord_le (atom_coord (last (m_display_buffer w))) p"
    show "iterator_at Q w p = Inr (buffer_iterator_at (m_buffer w) (coord_add (m_position w) p))"
    proof (cases "coord_le (coord 0 0) p")
      case False
      with ne show ?thesis by (simp add: iterator_at_def)
    next
      case True
      with c have s: "sorted_wrt (\<lambda>x y. coord_le (atom_coord x) (atom_coord y)) (m_display_buffer w)"
        and l: "coord_le (atom_coord (last (m_display_buffer w))) p" by auto
      have "\<forall>x \<in> set (m_display_buffer w). \<not> coord_less p (atom_coord x)"
        using sorted_wrt_le_last [OF s] l coord_le_trans coord_le_not_less by blast
      then have "iterator_at_loop Q (m_buffer w) None (m_display_buffer w) p = None"
        by (rule iterator_at_loop_None)
      with ne True show ?thesis by (simp add: iterator_at_def)
    qed
  qed
  from empty delegate fallback show ?thesis by blast
qed

theorem iterator_at_cases_witness:
  "m_display_buffer captured_window = [] \<and>
   iterator_at raw_queries captured_window (coord 1 1) = Inr 0 \<and>
   m_display_buffer split_window = [make_atom (coord 0 0) 0 4] @ make_atom (coord 1 0) 4 7 # [] \<and>
   coord_le (coord 0 0) (coord 0 2) \<and> coord_less (coord 0 2) (coord 1 0) \<and>
   iterator_at raw_queries split_window (coord 0 2)
     = Inr (atom_iterator_at raw_queries (m_buffer split_window) (make_atom (coord 0 0) 0 4)
              (coord 0 2)) \<and>
   iterator_at raw_queries split_window (coord 0 2) = Inr 2 \<and>
   \<not> coord_le (coord 0 0) (coord 0 (- 1)) \<and>
   iterator_at raw_queries split_window (coord 0 (- 1)) = Inr 0 \<and>
   sorted_wrt (\<lambda>x y. coord_le (atom_coord x) (atom_coord y)) (m_display_buffer split_window) \<and>
   coord_le (atom_coord (last (m_display_buffer split_window))) (coord 1 2) \<and>
   iterator_at raw_queries split_window (coord 1 2)
     = Inr (buffer_iterator_at (m_buffer split_window)
              (coord_add (m_position split_window) (coord 1 2))) \<and>
   iterator_at raw_queries split_window (coord 1 2) = Inr 6"
proof -
  have e: "m_display_buffer captured_window = []"
    by (simp add: captured_window_def)
  have d: "m_display_buffer split_window
      = [make_atom (coord 0 0) 0 4] @ make_atom (coord 1 0) 4 7 # []"
    by (simp add: split_window_def)
  have s: "sorted_wrt (\<lambda>x y. coord_le (atom_coord x) (atom_coord y)) (m_display_buffer split_window)"
    by (simp add: split_window_def make_atom_def coord_def coord_le_def)
  show ?thesis
    using e d s
      iterator_at_cases [of captured_window raw_queries "coord 1 1"]
      iterator_at_cases [of split_window raw_queries "coord 0 2" "[make_atom (coord 0 0) 0 4]"
                            "make_atom (coord 1 0) 4 7" "[]"]
      iterator_at_cases [of split_window raw_queries "coord 0 (- 1)"]
      iterator_at_cases [of split_window raw_queries "coord 1 2"]
    by (simp add: split_window_def captured_window_def window_eval inserter_eval)
qed

section \<open>Opening a line\<close>











end
